theory Spec2Isabelle
  imports Complex_Main "HOL-Library.Char_ord" "HOL-Library.List_Lexorder"
begin

section \<open>Python values used by the service\<close>

text \<open>
  A Python \<open>str\<close> is modelled as a \<open>string\<close> whose characters are the code points
  below 256; a \<open>bytes\<close> object is a list of 8-bit characters as well. Python's \<open>int\<close>
  is \<open>int\<close>. The logging calls of the source have no effect on any returned value and
  are left out.
\<close>

type_synonym bytes = "char list"

text \<open>\<open>str(n)\<close> for an integer: decimal digits, with a leading minus sign.\<close>

fun str_nat :: "nat \<Rightarrow> string" where
  "str_nat n =
     (if n < 10 then [''0123456789'' ! n]
      else str_nat (n div 10) @ [''0123456789'' ! (n mod 10)])"

declare str_nat.simps [simp del]

definition str_int :: "int \<Rightarrow> string" where
  "str_int i = (if i < 0 then CHR ''-'' # str_nat (nat (- i)) else str_nat (nat i))"

text \<open>\<open>str.isspace\<close> on code points below 256, and \<open>str.strip()\<close>.\<close>

definition isspace :: "char \<Rightarrow> bool" where
  "isspace c =
     (let n = (of_char c :: nat)
      in (9 \<le> n \<and> n \<le> 13) \<or> (28 \<le> n \<and> n \<le> 32) \<or> n = 133 \<or> n = 160)"

definition strip :: "string \<Rightarrow> string" where
  "strip s = rev (dropWhile isspace (rev (dropWhile isspace s)))"

text \<open>\<open>bytes.decode('ascii', errors='ignore')\<close>: bytes of 128 and above are dropped.\<close>

definition decode_ascii_ignore :: "bytes \<Rightarrow> string" where
  "decode_ascii_ignore bs = filter (\<lambda>b. (of_char b :: nat) < 128) bs"

text \<open>\<open>str.lower()\<close> on code points below 256: A-Z and the Latin-1 capitals.\<close>

definition lower_char :: "char \<Rightarrow> char" where
  "lower_char c =
     (let n = (of_char c :: nat)
      in if (65 \<le> n \<and> n \<le> 90) \<or> (192 \<le> n \<and> n \<le> 222 \<and> n \<noteq> 215)
         then char_of (n + 32) else c)"

definition lower :: "string \<Rightarrow> string" where
  "lower s = map lower_char s"

text \<open>\<open>kw in s\<close> on strings: \<open>kw\<close> occurs in \<open>s\<close> as a contiguous substring.\<close>

fun str_contains :: "string \<Rightarrow> string \<Rightarrow> bool" where
  "str_contains kw [] = (kw = [])"
| "str_contains kw (c # s) = (take (length kw) (c # s) = kw \<or> str_contains kw s)"

subsection \<open>Exceptions\<close>

text \<open>
  An exception is its class and the text \<open>str(e)\<close>. The classes are the ones the serial
  library and the built-ins used here raise; all of them derive from \<open>Exception\<close>.
  \<open>serial.SerialException\<close> derives from \<open>IOError\<close>, that is \<open>OSError\<close>, and
  \<open>SerialTimeoutException\<close> from \<open>SerialException\<close>; \<open>PermissionError\<close> derives from
  \<open>OSError\<close>. Asynchronous interrupts of the interpreter are outside the model.
\<close>

datatype pyclass =
    SerialException | SerialTimeoutException | PermissionError | OSError
  | UnicodeEncodeError | KeyError | ValueError | Exception

datatype pyexn = PyExn (exn_class: pyclass) (exn_str: string)

fun issubclass :: "pyclass \<Rightarrow> pyclass \<Rightarrow> bool" where
  "issubclass c Exception = True"
| "issubclass c OSError =
     (c = OSError \<or> c = PermissionError \<or> c = SerialException \<or> c = SerialTimeoutException)"
| "issubclass c SerialException = (c = SerialException \<or> c = SerialTimeoutException)"
| "issubclass c ValueError = (c = ValueError \<or> c = UnicodeEncodeError)"
| "issubclass c d = (c = d)"

definition isinstance :: "pyexn \<Rightarrow> pyclass \<Rightarrow> bool" where
  "isinstance e d = issubclass (exn_class e) d"

text \<open>\<open>str.encode('ascii')\<close> raises on a code point of 128 or above.\<close>

definition encode_ascii :: "string \<Rightarrow> pyexn + bytes" where
  "encode_ascii s =
     (if list_all (\<lambda>c. (of_char c :: nat) < 128) s then Inr s
      else Inl (PyExn UnicodeEncodeError ''ordinal not in range(128)''))"

section \<open>Constants of the service\<close>

definition PORT_COMMANDS :: "(int \<times> string) list" where
  "PORT_COMMANDS =
     [(1, ''X1,1$''), (2, ''X2,1$''), (3, ''X3,1$''), (4, ''X4,1$''), (5, ''X5,1$''),
      (6, ''X6,1$''), (7, ''X7,1$''), (8, ''X8,1$''), (9, ''X9,1$''), (10, ''XA,1$'')]"

definition AVAILABLE_PORTS :: "int list" where
  "AVAILABLE_PORTS = [1..10]"

datatype bytesize = FIVEBITS | SIXBITS | SEVENBITS | EIGHTBITS
datatype parity = PARITY_NONE | PARITY_EVEN | PARITY_ODD | PARITY_MARK | PARITY_SPACE
datatype stopbits = STOPBITS_ONE | STOPBITS_ONE_POINT_FIVE | STOPBITS_TWO

record serial_config =
  baudrate :: nat
  bytesize :: bytesize
  parity :: parity
  stopbits :: stopbits
  timeout :: real
  write_timeout :: real

definition SERIAL_CONFIG :: serial_config where
  "SERIAL_CONFIG =
     \<lparr>baudrate = 115200, bytesize = EIGHTBITS, parity = PARITY_NONE,
      stopbits = STOPBITS_ONE, timeout = 1.0, write_timeout = 1.0\<rparr>"

record SwitchResponse =
  success :: bool
  port :: int
  command :: string
  response :: string
  error :: "string option"

section \<open>The serial device and the clock\<close>

text \<open>
  The serial library and \<open>time.sleep\<close> are the environment of the transaction. The
  environment has a state of type \<open>'w\<close> (the device, its buffers, the wire); every call
  of the source is an operation that takes the state and gives back a value or a raised
  exception together with the new state. Each call the transaction makes is also
  recorded, in order, with its arguments.
\<close>

datatype event =
    Open string serial_config
  | ResetInputBuffer
  | ResetOutputBuffer
  | Write bytes
  | Flush
  | Sleep real
  | InWaiting
  | Read nat
  | Close

record 'w env =
  Serial :: "string \<Rightarrow> serial_config \<Rightarrow> 'w \<Rightarrow> (pyexn + unit) \<times> 'w"
  reset_input_buffer :: "'w \<Rightarrow> (pyexn + unit) \<times> 'w"
  reset_output_buffer :: "'w \<Rightarrow> (pyexn + unit) \<times> 'w"
  ser_write :: "bytes \<Rightarrow> 'w \<Rightarrow> (pyexn + nat) \<times> 'w"
  flush :: "'w \<Rightarrow> (pyexn + unit) \<times> 'w"
  sleep :: "real \<Rightarrow> 'w \<Rightarrow> 'w"
  in_waiting :: "'w \<Rightarrow> (pyexn + nat) \<times> 'w"
  read :: "nat \<Rightarrow> 'w \<Rightarrow> (pyexn + bytes) \<times> 'w"
  close :: "'w \<Rightarrow> (pyexn + unit) \<times> 'w"

type_synonym 'w st = "'w \<times> event list"

definition invoke :: "event \<Rightarrow> ('w \<Rightarrow> (pyexn + 'a) \<times> 'w) \<Rightarrow> 'w st \<Rightarrow> (pyexn + 'a) \<times> 'w st" where
  "invoke ev f s = (case f (fst s) of (r, w') \<Rightarrow> (r, (w', snd s @ [ev])))"

definition return_io :: "'a \<Rightarrow> 'w st \<Rightarrow> (pyexn + 'a) \<times> 'w st" where
  "return_io a s = (Inr a, s)"

definition lift_io :: "pyexn + 'a \<Rightarrow> 'w st \<Rightarrow> (pyexn + 'a) \<times> 'w st" where
  "lift_io r s = (r, s)"

definition bind_io ::
  "('w st \<Rightarrow> (pyexn + 'a) \<times> 'w st) \<Rightarrow> ('a \<Rightarrow> 'w st \<Rightarrow> (pyexn + 'b) \<times> 'w st)
   \<Rightarrow> 'w st \<Rightarrow> (pyexn + 'b) \<times> 'w st" where
  "bind_io m f s = (case m s of (Inl e, s') \<Rightarrow> (Inl e, s') | (Inr a, s') \<Rightarrow> f a s')"

section \<open>The port-switch transaction\<close>

definition validate_port_number :: "int \<Rightarrow> bool" where
  "validate_port_number p = (1 \<le> p \<and> p \<le> 10)"

text \<open>\<open>ser.read(ser.in_waiting or 1024)\<close>: the property is read first, then the call.\<close>

definition read_response :: "'w env \<Rightarrow> 'w st \<Rightarrow> (pyexn + bytes) \<times> 'w st" where
  "read_response ser =
     bind_io (invoke InWaiting (in_waiting ser)) (\<lambda>n.
       invoke (Read (if n \<noteq> 0 then n else 1024)) (read ser (if n \<noteq> 0 then n else 1024)))"

text \<open>The body of the \<open>with\<close> block, up to the value of \<open>response\<close>.\<close>

definition exchange :: "'w env \<Rightarrow> string \<Rightarrow> 'w st \<Rightarrow> (pyexn + string) \<times> 'w st" where
  "exchange ser cmd =
     bind_io (invoke ResetInputBuffer (reset_input_buffer ser)) (\<lambda>_.
     bind_io (invoke ResetOutputBuffer (reset_output_buffer ser)) (\<lambda>_.
     bind_io (lift_io (encode_ascii cmd)) (\<lambda>data.
     bind_io (invoke (Write data) (ser_write ser data)) (\<lambda>_.
     bind_io (invoke Flush (flush ser)) (\<lambda>_.
     bind_io (invoke (Sleep 0.5) (\<lambda>w. (Inr (), sleep ser 0.5 w))) (\<lambda>_.
     bind_io (read_response ser) (\<lambda>response_bytes.
     return_io (strip (decode_ascii_ignore response_bytes)))))))))"

text \<open>
  \<open>with serial.Serial(port=serial_port, **SERIAL_CONFIG) as ser\<close>: when the constructor
  raises, nothing else runs. Otherwise the body runs and the port is closed on every
  exit from it; an exception raised by closing replaces the outcome of the body.
\<close>

definition with_serial :: "'w env \<Rightarrow> string \<Rightarrow> string \<Rightarrow> 'w st \<Rightarrow> (pyexn + string) \<times> 'w st" where
  "with_serial ser serial_port cmd s =
     (case invoke (Open serial_port SERIAL_CONFIG) (Serial ser serial_port SERIAL_CONFIG) s of
        (Inl e, s1) \<Rightarrow> (Inl e, s1)
      | (Inr _, s1) \<Rightarrow>
          (case exchange ser cmd s1 of
             (r, s2) \<Rightarrow>
               (case invoke Close (close ser) s2 of
                  (Inl e, s3) \<Rightarrow> (Inl e, s3)
                | (Inr _, s3) \<Rightarrow> (r, s3))))"

text \<open>The three \<open>except\<close> clauses, in the order of the source.\<close>

definition on_exception :: "string \<Rightarrow> int \<Rightarrow> string \<Rightarrow> pyexn \<Rightarrow> pyexn + SwitchResponse" where
  "on_exception serial_port port_num cmd e =
     (if isinstance e SerialException then
        Inr \<lparr>success = False, port = port_num, command = cmd, response = '''',
             error = Some (''Serial communication failed: '' @ exn_str e)\<rparr>
      else if isinstance e PermissionError then
        Inr \<lparr>success = False, port = port_num, command = cmd, response = '''',
             error = Some (''Access denied to serial port '' @ serial_port @ '': '' @ exn_str e)\<rparr>
      else if isinstance e Exception then
        Inr \<lparr>success = False, port = port_num, command = cmd, response = '''',
             error = Some (''Unexpected error: '' @ exn_str e)\<rparr>
      else Inl e)"

definition switch_kvm_port ::
  "'w env \<Rightarrow> string \<Rightarrow> int \<Rightarrow> 'w st \<Rightarrow> (pyexn + SwitchResponse) \<times> 'w st" where
  "switch_kvm_port ser serial_port port_num s =
     (if \<not> validate_port_number port_num then
        (Inr \<lparr>success = False, port = port_num, command = '''', response = '''',
              error = Some (''Invalid port number: '' @ str_int port_num @ ''. Must be 1-10.'')\<rparr>,
         s)
      else
        (case map_of PORT_COMMANDS port_num of
           None \<Rightarrow> (Inl (PyExn KeyError (str_int port_num)), s)
         | Some cmd \<Rightarrow>
             (case with_serial ser serial_port cmd s of
                (Inr resp, s') \<Rightarrow>
                  (Inr \<lparr>success = True, port = port_num, command = cmd, response = resp,
                        error = None\<rparr>, s')
              | (Inl e, s') \<Rightarrow> (on_exception serial_port port_num cmd e, s'))))"

section \<open>Port discovery and friendly names\<close>

text \<open>An entry of \<open>serial.tools.list_ports.comports()\<close>: both fields are strings.\<close>

datatype ListPortInfo = ListPortInfo (lp_device: string) (lp_description: string)

record SerialPortInfo =
  device :: string
  description :: string

definition filter_keywords :: "string list" where
  "filter_keywords = [''usb'', ''serial'', ''ch340'', ''ftdi'', ''cp210'']"

definition matches_keyword :: "ListPortInfo \<Rightarrow> bool" where
  "matches_keyword p = list_ex (\<lambda>keyword. str_contains keyword (lower (lp_description p))) filter_keywords"

definition to_info :: "ListPortInfo \<Rightarrow> SerialPortInfo" where
  "to_info p =
     \<lparr>device = lp_device p,
      description = (if lp_description p \<noteq> '''' then lp_description p
                     else ''Serial Port '' @ lp_device p)\<rparr>"

text \<open>
  The argument is the outcome of \<open>comports()\<close>. The loop appends the matching ports in
  order; \<open>list.sort\<close> is stable, as insertion by key is. The whole body is inside
  \<open>try\<close>, and the handler returns the empty list.
\<close>

definition get_serial_ports :: "pyexn + ListPortInfo list \<Rightarrow> SerialPortInfo list" where
  "get_serial_ports comports =
     (case comports of
        Inl e \<Rightarrow> []
      | Inr ports \<Rightarrow> sort_key device (map to_info (filter matches_keyword ports)))"

text \<open>The argument is \<open>os.getenv\<close>: the environment as a partial map.\<close>

definition get_port_names_from_env :: "(string \<rightharpoonup> string) \<Rightarrow> (int \<rightharpoonup> string)" where
  "get_port_names_from_env getenv =
     foldl (\<lambda>port_names p.
              let env_key = ''KVM_PORT_'' @ str_int p @ ''_NAME'';
                  env_value = getenv env_key
              in case env_value of
                   None \<Rightarrow> port_names(p \<mapsto> ''Server '' @ str_int p)
                 | Some v \<Rightarrow>
                     if v \<noteq> '''' then port_names(p \<mapsto> v)
                     else port_names(p \<mapsto> ''Server '' @ str_int p))
           Map.empty AVAILABLE_PORTS"

section \<open>Concrete environments\<close>

text \<open>
  A device without state: opening and closing raise the given exception, if any; every
  other call succeeds; the device reports the whole reply as waiting and a read of \<open>n\<close>
  bytes returns the first \<open>n\<close> bytes of the reply.
\<close>

definition outcome :: "pyexn option \<Rightarrow> unit \<Rightarrow> (pyexn + unit) \<times> unit" where
  "outcome fault w = (case fault of None \<Rightarrow> (Inr (), w) | Some e \<Rightarrow> (Inl e, w))"

definition stub :: "pyexn option \<Rightarrow> bytes \<Rightarrow> pyexn option \<Rightarrow> unit env" where
  "stub open_fault reply close_fault =
     \<lparr>Serial = (\<lambda>_ _. outcome open_fault),
      reset_input_buffer = outcome None,
      reset_output_buffer = outcome None,
      ser_write = (\<lambda>data w. (Inr (length data), w)),
      flush = outcome None,
      sleep = (\<lambda>_ w. w),
      in_waiting = (\<lambda>w. (Inr (length reply), w)),
      read = (\<lambda>n w. (Inr (take n reply), w)),
      close = outcome close_fault\<rparr>"

text \<open>
  A device whose state is the time elapsed, in seconds: sleeping advances the time, and
  the reply of the switch is in the input buffer only once half a second has passed.
  Every call succeeds.
\<close>

definition clock_stub :: "bytes \<Rightarrow> real env" where
  "clock_stub reply =
     \<lparr>Serial = (\<lambda>_ _ t. (Inr (), t)),
      reset_input_buffer = (\<lambda>t. (Inr (), t)),
      reset_output_buffer = (\<lambda>t. (Inr (), t)),
      ser_write = (\<lambda>data t. (Inr (length data), t)),
      flush = (\<lambda>t. (Inr (), t)),
      sleep = (\<lambda>d t. t + d),
      in_waiting = (\<lambda>t. (Inr (if 0.5 \<le> t then length reply else 0), t)),
      read = (\<lambda>n t. (Inr (if 0.5 \<le> t then take n reply else []), t)),
      close = (\<lambda>t. (Inr (), t))\<rparr>"

text \<open>Ports as the operating system might list them, and an environment.\<close>

definition example_ports :: "ListPortInfo list" where
  "example_ports =
     [ListPortInfo ''/dev/ttyUSB1'' ''FTDI Adapter'',
      ListPortInfo ''/dev/ttyS0'' ''n/a'',
      ListPortInfo ''/dev/ttyUSB0'' ''USB-Serial Controller'']"

definition example_env :: "string \<rightharpoonup> string" where
  "example_env = [''KVM_PORT_2_NAME'' \<mapsto> ''Build box'', ''KVM_PORT_3_NAME'' \<mapsto> '''']"

text \<open>The name one pass of the loop of \<open>get_port_names_from_env\<close> stores for a port.\<close>

definition port_name :: "(string \<rightharpoonup> string) \<Rightarrow> int \<Rightarrow> string" where
  "port_name getenv p =
     (case getenv (''KVM_PORT_'' @ str_int p @ ''_NAME'') of
        None \<Rightarrow> ''Server '' @ str_int p
      | Some v \<Rightarrow> if v \<noteq> '''' then v else ''Server '' @ str_int p)"

section \<open>The command table\<close>

lemmas io_defs = bind_io_def invoke_def return_io_def lift_io_def

lemmas stub_eval = switch_kvm_port_def validate_port_number_def PORT_COMMANDS_def with_serial_def
  exchange_def read_response_def io_defs stub_def outcome_def encode_ascii_def strip_def
  decode_ascii_ignore_def isspace_def on_exception_def isinstance_def

lemmas stub_ops = stub_def outcome_def validate_port_number_def PORT_COMMANDS_def

lemma int_1_10: "(1::int) \<le> p \<Longrightarrow> p \<le> 10 \<Longrightarrow> p \<in> {1,2,3,4,5,6,7,8,9,10}"
  by simp presburger

lemma int_1_9: "(1::int) \<le> p \<Longrightarrow> p \<le> 9 \<Longrightarrow> p \<in> {1,2,3,4,5,6,7,8,9}"
  by simp presburger

lemma PORT_COMMANDS_1_9:
  assumes "1 \<le> n" "n \<le> 9"
  shows "map_of PORT_COMMANDS n = Some (''X'' @ str_int n @ '',1$'')"
proof -
  from int_1_9[OF assms] show ?thesis
    by (elim insertE emptyE; simp add: PORT_COMMANDS_def str_int_def str_nat.simps)
qed

lemma dom_PORT_COMMANDS: "dom (map_of PORT_COMMANDS) = {1..10}"
proof -
  have "dom (map_of PORT_COMMANDS) = {1,2,3,4,5,6,7,8,9,10}"
    by (simp add: dom_map_of_conv_image_fst PORT_COMMANDS_def)
  also have "\<dots> = {1..10}"
    by (auto, presburger)
  finally show ?thesis .
qed

lemma valid_has_command:
  assumes "1 \<le> p" "p \<le> 10"
  shows "\<exists>cmd. map_of PORT_COMMANDS p = Some cmd \<and> cmd \<noteq> [] \<and> cmd \<in> snd ` set PORT_COMMANDS
     \<and> encode_ascii cmd = Inr cmd"
proof -
  from int_1_10[OF assms] show ?thesis
    by (elim insertE emptyE; simp add: PORT_COMMANDS_def encode_ascii_def)
qed

lemma valid_command_nonempty:
  assumes "map_of PORT_COMMANDS p = Some cmd"
  shows "1 \<le> p \<and> p \<le> 10 \<and> cmd \<noteq> '''' \<and> cmd \<in> snd ` set PORT_COMMANDS \<and> encode_ascii cmd = Inr cmd"
proof -
  from assms have "p \<in> dom (map_of PORT_COMMANDS)" by blast
  then have v: "1 \<le> p" "p \<le> 10" by (simp_all add: dom_PORT_COMMANDS)
  from valid_has_command[OF v] assms v show ?thesis by auto
qed

section \<open>Exceptions and the shape of a transaction\<close>

lemma isinstance_Exception: "isinstance e Exception"
  by (simp add: isinstance_def)

lemma isinstance_PermissionError_iff: "isinstance e PermissionError = (exn_class e = PermissionError)"
  by (simp add: isinstance_def)

lemma isinstance_SerialException_iff:
  "isinstance e SerialException = (exn_class e = SerialException \<or> exn_class e = SerialTimeoutException)"
  by (simp add: isinstance_def)

lemma on_exception_Inr: "\<exists>r. on_exception dev p cmd e = Inr r"
  by (simp add: on_exception_def isinstance_Exception)

lemma switch_valid_unfold:
  assumes "1 \<le> p" "p \<le> 10" "map_of PORT_COMMANDS p = Some cmd"
  shows "switch_kvm_port ser dev p s =
           (case with_serial ser dev cmd s of
              (Inr resp, s') \<Rightarrow>
                (Inr \<lparr>success = True, port = p, command = cmd, response = resp, error = None\<rparr>, s')
            | (Inl e, s') \<Rightarrow> (on_exception dev p cmd e, s'))"
  using assms by (simp add: switch_kvm_port_def validate_port_number_def)

lemma switch_valid_events:
  assumes "1 \<le> p" "p \<le> 10" "map_of PORT_COMMANDS p = Some cmd"
   and "switch_kvm_port ser dev p s = (r, s')"
  shows "\<exists>r0. with_serial ser dev cmd s = (r0, s')"
  using assms(4) unfolding switch_valid_unfold[OF assms(1-3)]
  by (auto split: prod.splits sum.splits)

lemma with_serial_open_fails:
  assumes "Serial ser dev SERIAL_CONFIG (fst s) = (Inl e, w')"
  shows "with_serial ser dev cmd s = (Inl e, (w', snd s @ [Open dev SERIAL_CONFIG]))"
  using assms by (simp add: with_serial_def invoke_def)

subsection \<open>The calls made, in order\<close>

lemma exchange_Read:
  assumes "exchange ser cmd s = (r, s')" "encode_ascii cmd = Inr data"
    and "Read n \<in> set (snd s')" "Read n \<notin> set (snd s)"
  shows "snd s' = snd s @ [ResetInputBuffer, ResetOutputBuffer, Write data, Flush,
                           Sleep 0.5, InWaiting, Read n]"
  using assms
  by (auto simp: exchange_def read_response_def io_defs split: prod.splits sum.splits if_splits)

lemma with_serial_Read:
  assumes "with_serial ser dev cmd (w, []) = (r, s')" "encode_ascii cmd = Inr data"
    and "Read n \<in> set (snd s')"
  shows "snd s' = [Open dev SERIAL_CONFIG, ResetInputBuffer, ResetOutputBuffer, Write data, Flush,
                           Sleep 0.5, InWaiting, Read n, Close]"
proof -
  obtain r0 s1 where o: "invoke (Open dev SERIAL_CONFIG) (Serial ser dev SERIAL_CONFIG) (w, []) = (r0, s1)"
    by (cases "invoke (Open dev SERIAL_CONFIG) (Serial ser dev SERIAL_CONFIG) (w, [])")
  then have l1: "snd s1 = [Open dev SERIAL_CONFIG]"
    by (auto simp: invoke_def split: prod.splits)
  show ?thesis
  proof (cases r0)
    case (Inl e)
    with o assms l1 show ?thesis by (auto simp: with_serial_def)
  next
    case (Inr u)
    obtain r2 s2 where x: "exchange ser cmd s1 = (r2, s2)"
      by (cases "exchange ser cmd s1")
    obtain r3 s3 where c: "invoke Close (close ser) s2 = (r3, s3)"
      by (cases "invoke Close (close ser) s2")
    then have l3: "snd s3 = snd s2 @ [Close]"
      by (auto simp: invoke_def split: prod.splits)
    have "s' = s3"
      using assms(1) o Inr x c by (auto simp: with_serial_def split: sum.splits)
    with assms(3) l3 have "Read n \<in> set (snd s2)" by auto
    from exchange_Read[OF x assms(2) this] l1
    have "snd s2 = [Open dev SERIAL_CONFIG, ResetInputBuffer, ResetOutputBuffer, Write data, Flush,
                           Sleep 0.5, InWaiting, Read n]" by simp
    with l3 \<open>s' = s3\<close> show ?thesis by simp
  qed
qed

lemma exchange_Write:
  assumes "exchange ser cmd s = (r, s')" "encode_ascii cmd = Inr data"
    and "Write d \<in> set (snd s')" "Write d \<notin> set (snd s)"
  shows "d = data"
  using assms
  by (auto simp: exchange_def read_response_def io_defs split: prod.splits sum.splits if_splits)

lemma with_serial_Write:
  assumes "with_serial ser dev cmd (w, []) = (r, s')" "encode_ascii cmd = Inr data"
    and "Write d \<in> set (snd s')"
  shows "d = data"
proof -
  obtain r0 s1 where o: "invoke (Open dev SERIAL_CONFIG) (Serial ser dev SERIAL_CONFIG) (w, []) = (r0, s1)"
    by (cases "invoke (Open dev SERIAL_CONFIG) (Serial ser dev SERIAL_CONFIG) (w, [])")
  then have l1: "snd s1 = [Open dev SERIAL_CONFIG]"
    by (auto simp: invoke_def split: prod.splits)
  show ?thesis
  proof (cases r0)
    case (Inl e)
    with o assms l1 show ?thesis by (auto simp: with_serial_def)
  next
    case (Inr u)
    obtain r2 s2 where x: "exchange ser cmd s1 = (r2, s2)"
      by (cases "exchange ser cmd s1")
    obtain r3 s3 where c: "invoke Close (close ser) s2 = (r3, s3)"
      by (cases "invoke Close (close ser) s2")
    then have l3: "snd s3 = snd s2 @ [Close]"
      by (auto simp: invoke_def split: prod.splits)
    have "s' = s3"
      using assms(1) o Inr x c by (auto simp: with_serial_def split: sum.splits)
    with assms(3) l3 have "Write d \<in> set (snd s2)" by auto
    moreover have "Write d \<notin> set (snd s1)" using l1 by simp
    ultimately show ?thesis using exchange_Write[OF x assms(2)] by blast
  qed
qed

lemma exchange_InWaiting:
  assumes "exchange ser cmd s = (r, s')" "encode_ascii cmd = Inr data"
    and "InWaiting \<in> set (snd s')" "InWaiting \<notin> set (snd s)"
  shows "\<exists>rest. snd s' = snd s @ [ResetInputBuffer, ResetOutputBuffer, Write data, Flush,
                           Sleep 0.5, InWaiting] @ rest"
  using assms
  by (auto simp: exchange_def read_response_def io_defs split: prod.splits sum.splits if_splits)

lemma with_serial_InWaiting:
  assumes "with_serial ser dev cmd (w, []) = (r, s')" "encode_ascii cmd = Inr data"
    and "InWaiting \<in> set (snd s')"
  shows "take 7 (snd s') = [Open dev SERIAL_CONFIG, ResetInputBuffer, ResetOutputBuffer, Write data,
                           Flush, Sleep 0.5, InWaiting]"
proof -
  obtain r0 s1 where o: "invoke (Open dev SERIAL_CONFIG) (Serial ser dev SERIAL_CONFIG) (w, []) = (r0, s1)"
    by (cases "invoke (Open dev SERIAL_CONFIG) (Serial ser dev SERIAL_CONFIG) (w, [])")
  then have l1: "snd s1 = [Open dev SERIAL_CONFIG]"
    by (auto simp: invoke_def split: prod.splits)
  show ?thesis
  proof (cases r0)
    case (Inl e)
    with o assms l1 show ?thesis by (auto simp: with_serial_def)
  next
    case (Inr u)
    obtain r2 s2 where x: "exchange ser cmd s1 = (r2, s2)"
      by (cases "exchange ser cmd s1")
    obtain r3 s3 where c: "invoke Close (close ser) s2 = (r3, s3)"
      by (cases "invoke Close (close ser) s2")
    then have l3: "snd s3 = snd s2 @ [Close]"
      by (auto simp: invoke_def split: prod.splits)
    have "s' = s3"
      using assms(1) o Inr x c by (auto simp: with_serial_def split: sum.splits)
    with assms(3) l3 have "InWaiting \<in> set (snd s2)" by auto
    moreover have "InWaiting \<notin> set (snd s1)" using l1 by simp
    ultimately obtain rest where
      "snd s2 = snd s1 @ [ResetInputBuffer, ResetOutputBuffer, Write data, Flush, Sleep 0.5, InWaiting] @ rest"
      using exchange_InWaiting[OF x assms(2)] by blast
    with l1 l3 \<open>s' = s3\<close> show ?thesis by simp
  qed
qed

lemma exchange_reaches_read:
  assumes "exchange ser cmd (w1, l) = (r2, s2)" "encode_ascii cmd = Inr data"
    and "InWaiting \<in> set (snd s2)" "InWaiting \<notin> set l"
  shows "\<exists>k w2 w3 w4 w5 rr.
           reset_input_buffer ser w1 = (Inr (), w2)
         \<and> reset_output_buffer ser w2 = (Inr (), w3)
         \<and> ser_write ser data w3 = (Inr k, w4)
         \<and> flush ser w4 = (Inr (), w5)
         \<and> read_response ser
              (sleep ser 0.5 w5,
               l @ [ResetInputBuffer, ResetOutputBuffer, Write data, Flush, Sleep 0.5]) = (rr, s2)
         \<and> r2 = (case rr of Inl e \<Rightarrow> Inl e
                            | Inr bs \<Rightarrow> Inr (strip (decode_ascii_ignore bs)))"
  using assms
  by (auto simp: exchange_def io_defs split: prod.splits sum.splits if_splits; blast)

lemma with_serial_reaches_read:
  assumes "with_serial ser dev cmd (w, []) = (r, s')" "encode_ascii cmd = Inr data"
    and "InWaiting \<in> set (snd s')"
  shows "\<exists>k w1 w2 w3 w4 w5 rr s7 rc.
           Serial ser dev SERIAL_CONFIG w = (Inr (), w1)
         \<and> reset_input_buffer ser w1 = (Inr (), w2)
         \<and> reset_output_buffer ser w2 = (Inr (), w3)
         \<and> ser_write ser data w3 = (Inr k, w4)
         \<and> flush ser w4 = (Inr (), w5)
         \<and> read_response ser
              (sleep ser 0.5 w5,
               [Open dev SERIAL_CONFIG, ResetInputBuffer, ResetOutputBuffer, Write data, Flush,
                Sleep 0.5]) = (rr, s7)
         \<and> invoke Close (close ser) s7 = (rc, s')
         \<and> r = (case rc of
                    Inl e \<Rightarrow> Inl e
                  | Inr _ \<Rightarrow> (case rr of Inl e \<Rightarrow> Inl e
                                       | Inr bs \<Rightarrow> Inr (strip (decode_ascii_ignore bs))))"
proof -
  obtain r0 w1 where o: "Serial ser dev SERIAL_CONFIG w = (r0, w1)"
    by (cases "Serial ser dev SERIAL_CONFIG w")
  show ?thesis
  proof (cases r0)
    case (Inl e)
    with o assms show ?thesis by (auto simp: with_serial_def invoke_def)
  next
    case (Inr u)
    let ?s1 = "(w1, [Open dev SERIAL_CONFIG])"
    from o Inr have op: "invoke (Open dev SERIAL_CONFIG) (Serial ser dev SERIAL_CONFIG) (w, []) = (Inr (), ?s1)"
      by (simp add: invoke_def)
    obtain r2 s2 where x: "exchange ser cmd ?s1 = (r2, s2)"
      by (cases "exchange ser cmd ?s1")
    obtain rc s3 where c: "invoke Close (close ser) s2 = (rc, s3)"
      by (cases "invoke Close (close ser) s2")
    then have l3: "snd s3 = snd s2 @ [Close]"
      by (auto simp: invoke_def split: prod.splits)
    have res: "s' = s3" "r = (case rc of Inl e \<Rightarrow> Inl e | Inr _ \<Rightarrow> r2)"
      using assms(1) op x c by (auto simp: with_serial_def split: sum.splits)
    with assms(3) l3 have "InWaiting \<in> set (snd s2)" by auto
    from exchange_reaches_read[OF x assms(2) this]
    obtain k w2 w3 w4 w5 rr where e:
      "reset_input_buffer ser w1 = (Inr (), w2)"
      "reset_output_buffer ser w2 = (Inr (), w3)"
      "ser_write ser data w3 = (Inr k, w4)"
      "flush ser w4 = (Inr (), w5)"
      "read_response ser
              (sleep ser 0.5 w5,
               [Open dev SERIAL_CONFIG] @ [ResetInputBuffer, ResetOutputBuffer, Write data, Flush, Sleep 0.5]) = (rr, s2)"
      "r2 = (case rr of Inl e \<Rightarrow> Inl e
                            | Inr bs \<Rightarrow> Inr (strip (decode_ascii_ignore bs)))"
      by auto
    from o Inr have o': "Serial ser dev SERIAL_CONFIG w = (Inr (), w1)" by simp
    from e(5) have rd: "read_response ser
              (sleep ser 0.5 w5,
               [Open dev SERIAL_CONFIG, ResetInputBuffer, ResetOutputBuffer, Write data, Flush,
                Sleep 0.5]) = (rr, s2)" by simp
    from c res(1) have c': "invoke Close (close ser) s2 = (rc, s')" by simp
    from res(2) e(6) have r': "r = (case rc of
                    Inl e \<Rightarrow> Inl e
                  | Inr _ \<Rightarrow> (case rr of Inl e \<Rightarrow> Inl e
                                       | Inr bs \<Rightarrow> Inr (strip (decode_ascii_ignore bs))))"
      by (cases rc) simp_all
    from o' e(1-4) rd c' r' show ?thesis by blast
  qed
qed

lemma with_serial_upto_in_waiting:
  assumes "encode_ascii cmd = Inr data"
    and "Serial ser dev SERIAL_CONFIG w0 = (Inr u1, w1)"
    and "reset_input_buffer ser w1 = (Inr u2, w2)"
    and "reset_output_buffer ser w2 = (Inr u3, w3)"
    and "ser_write ser data w3 = (Inr k, w4)"
    and "flush ser w4 = (Inr u5, w5)"
    and "in_waiting ser (sleep ser 0.5 w5) = (Inr n, w6)"
    and "read ser (if n \<noteq> 0 then n else 1024) w6 = (rr, w7)"
    and "close ser w7 = (rc, w8)"
  shows "with_serial ser dev cmd (w0, []) =
           (case rc of
              Inl e \<Rightarrow> Inl e
            | Inr _ \<Rightarrow> (case rr of Inl e \<Rightarrow> Inl e
                                 | Inr bs \<Rightarrow> Inr (strip (decode_ascii_ignore bs))),
            (w8, [Open dev SERIAL_CONFIG, ResetInputBuffer, ResetOutputBuffer, Write data,
                  Flush, Sleep 0.5, InWaiting, Read (if n \<noteq> 0 then n else 1024), Close]))"
  using assms
  by (simp add: with_serial_def exchange_def read_response_def io_defs split: sum.splits)

lemma switch_upto_in_waiting:
  assumes "1 \<le> p" "p \<le> 10" "map_of PORT_COMMANDS p = Some cmd"
    and "Serial ser dev SERIAL_CONFIG w0 = (Inr u1, w1)"
    and "reset_input_buffer ser w1 = (Inr u2, w2)"
    and "reset_output_buffer ser w2 = (Inr u3, w3)"
    and "ser_write ser cmd w3 = (Inr k, w4)"
    and "flush ser w4 = (Inr u5, w5)"
    and "in_waiting ser (sleep ser 0.5 w5) = (Inr n, w6)"
    and "read ser (if n \<noteq> 0 then n else 1024) w6 = (rr, w7)"
    and "close ser w7 = (rc, w8)"
  shows "switch_kvm_port ser dev p (w0, []) =
           (case rc of
              Inl e \<Rightarrow> on_exception dev p cmd e
            | Inr _ \<Rightarrow>
                (case rr of
                   Inl e \<Rightarrow> on_exception dev p cmd e
                 | Inr bs \<Rightarrow> Inr \<lparr>success = True, port = p, command = cmd,
                                  response = strip (decode_ascii_ignore bs), error = None\<rparr>),
            (w8, [Open dev SERIAL_CONFIG, ResetInputBuffer, ResetOutputBuffer, Write cmd,
                  Flush, Sleep 0.5, InWaiting, Read (if n \<noteq> 0 then n else 1024), Close]))"
proof -
  from valid_command_nonempty[OF assms(3)] have enc: "encode_ascii cmd = Inr cmd" by simp
  show ?thesis
    unfolding switch_valid_unfold[OF assms(1-3)]
      with_serial_upto_in_waiting[OF enc assms(4-11)]
    by (simp split: sum.splits)
qed

subsection \<open>Decoding and trimming\<close>

lemma strip_ascii: "\<forall>c\<in>set (strip (decode_ascii_ignore bs)). (of_char c :: nat) < 128"
proof -
  have sub: "set (strip s) \<subseteq> set s" for s
    by (auto simp: strip_def dest!: set_dropWhileD)
  show ?thesis
  proof
    fix c assume "c \<in> set (strip (decode_ascii_ignore bs))"
    with sub have "c \<in> set (decode_ascii_ignore bs)" by blast
    then show "(of_char c :: nat) < 128" by (simp add: decode_ascii_ignore_def)
  qed
qed

lemma dropWhile_rev_last:
  "dropWhile P (rev xs) \<noteq> [] \<Longrightarrow> \<not> P (last (rev (dropWhile P (rev xs))))"
  by (metis hd_dropWhile last_rev)

lemma strip_ends:
  assumes "strip s \<noteq> []"
  shows "\<not> isspace (hd (strip s)) \<and> \<not> isspace (last (strip s))"
proof -
  let ?l = "dropWhile isspace s"
  from assms have ne: "dropWhile isspace (rev ?l) \<noteq> []" by (simp add: strip_def)
  then have l: "\<not> isspace (last (strip s))"
    unfolding strip_def by (rule dropWhile_rev_last)
  have "rev ?l \<noteq> []"
    using ne by (metis dropWhile.simps(1))
  then have "?l \<noteq> []" by simp
  then have h: "\<not> isspace (hd ?l)" by (rule hd_dropWhile)
  have "\<exists>ys. rev ?l = ys @ [hd ?l]" using \<open>?l \<noteq> []\<close> by (cases ?l) auto
  then obtain ys where ys: "rev ?l = ys @ [hd ?l]" by blast
  have "hd (rev (dropWhile isspace (rev ?l))) = hd ?l"
  proof -
    have "\<exists>zs. dropWhile isspace (ys @ [hd ?l]) = zs @ [hd ?l]"
      using h by (induction ys) auto
    then show ?thesis using ys by auto
  qed
  with h l show ?thesis by (simp add: strip_def)
qed

subsection \<open>Substrings, discovery and names\<close>

lemma take_eq_iff_prefix: "take (length kw) s = kw \<longleftrightarrow> (\<exists>suf. s = kw @ suf)"
  by (metis append_eq_conv_conj)

lemma str_contains_iff: "str_contains kw s \<longleftrightarrow> (\<exists>pre suf. s = pre @ kw @ suf)"
proof (induction s)
  case Nil
  then show ?case by auto
next
  case (Cons c s)
  have "(\<exists>pre suf. c # s = pre @ kw @ suf) \<longleftrightarrow>
        (\<exists>suf. c # s = kw @ suf) \<or> (\<exists>pre suf. s = pre @ kw @ suf)"
  proof
    assume "\<exists>pre suf. c # s = pre @ kw @ suf"
    then obtain pre suf where e: "c # s = pre @ kw @ suf" by blast
    show "(\<exists>suf. c # s = kw @ suf) \<or> (\<exists>pre suf. s = pre @ kw @ suf)"
    proof (cases pre)
      case Nil
      with e show ?thesis by auto
    next
      case (Cons a pre')
      with e have "s = pre' @ kw @ suf" by simp
      then show ?thesis by blast
    qed
  next
    assume "(\<exists>suf. c # s = kw @ suf) \<or> (\<exists>pre suf. s = pre @ kw @ suf)"
    then show "\<exists>pre suf. c # s = pre @ kw @ suf"
    proof
      assume "\<exists>suf. c # s = kw @ suf"
      then obtain suf where "c # s = [] @ kw @ suf" by auto
      then show ?thesis by blast
    next
      assume "\<exists>pre suf. s = pre @ kw @ suf"
      then obtain pre suf where "c # s = (c # pre) @ kw @ suf" by auto
      then show ?thesis by blast
    qed
  qed
  with Cons show ?case by (simp add: take_eq_iff_prefix del: take_Suc_Cons)
qed

lemma matches_keyword_iff:
  "matches_keyword p \<longleftrightarrow>
     (\<exists>kw\<in>set filter_keywords. \<exists>pre suf. lower (lp_description p) = pre @ kw @ suf)"
  by (simp add: matches_keyword_def list_ex_iff str_contains_iff)

lemma matches_keyword_nonempty: "matches_keyword p \<Longrightarrow> lp_description p \<noteq> ''''"
  by (auto simp: matches_keyword_def filter_keywords_def lower_def)

lemma example_ports_result:
  "get_serial_ports (Inr example_ports) =
     [\<lparr>device = ''/dev/ttyUSB0'', description = ''USB-Serial Controller''\<rparr>,
      \<lparr>device = ''/dev/ttyUSB1'', description = ''FTDI Adapter''\<rparr>]"
  by code_simp

lemma foldl_upd_apply:
  "foldl (\<lambda>m k. m(k \<mapsto> f k)) m0 ks k =
     (if k \<in> set ks then Some (f k) else m0 k)"
  by (induction ks arbitrary: m0 rule: rev_induct) auto

lemma get_port_names_from_env_fold:
  "get_port_names_from_env getenv =
     foldl (\<lambda>m k. m(k \<mapsto> port_name getenv k)) Map.empty AVAILABLE_PORTS"
  unfolding get_port_names_from_env_def port_name_def
  by (rule arg_cong[where f = "\<lambda>g. foldl g Map.empty AVAILABLE_PORTS"])
     (auto simp: fun_eq_iff Let_def split: option.splits)

lemma get_port_names_apply:
  "get_port_names_from_env getenv p =
     (if 1 \<le> p \<and> p \<le> 10 then Some (port_name getenv p) else None)"
  by (simp add: get_port_names_from_env_fold foldl_upd_apply AVAILABLE_PORTS_def)

lemma port_name_nonempty: "port_name getenv p \<noteq> ''''"
  by (simp add: port_name_def split: option.splits)

section \<open>The port validator\<close>

text \<open>
  C8. \<open>validate_port_number\<close> is a function of its argument alone, defined on every
  integer, and it is true exactly for the ports from 1 to 10.
\<close>

theorem validate_port_number_iff:
  "validate_port_number p = (1 \<le> p \<and> p \<le> 10)"
  by (simp add: validate_port_number_def)

section \<open>The transaction\<close>



text \<open>
  C2. The command table has exactly ten entries with distinct keys, one for each port of
  1..10; the entry of a port \<open>n\<close> of 1..9 is \<open>X\<close>, the decimal digit of \<open>n\<close>, then
  \<open>,1$\<close>, and the entry of port 10 is \<open>XA,1$\<close>. For every valid port the command field
  of the result of \<open>switch_kvm_port\<close> is the table entry of that port, and so are the bytes
  of every write the transaction makes.
\<close>

theorem port_commands_bit_exact:
  "length PORT_COMMANDS = 10 \<and> distinct (map fst PORT_COMMANDS)
   \<and> dom (map_of PORT_COMMANDS) = {1..10}
   \<and> (1 \<le> n \<and> n \<le> 9 \<longrightarrow> map_of PORT_COMMANDS n = Some (''X'' @ str_int n @ '',1$''))
   \<and> map_of PORT_COMMANDS 10 = Some ''XA,1$''
   \<and> (1 \<le> p \<and> p \<le> 10 \<longrightarrow>
        (\<exists>r w' evs. switch_kvm_port ser dev p (w, []) = (Inr r, (w', evs))
           \<and> map_of PORT_COMMANDS p = Some (command r)
           \<and> (\<forall>data. Write data \<in> set evs \<longrightarrow> data = command r)))"
proof -
  have a: "length PORT_COMMANDS = 10" "distinct (map fst PORT_COMMANDS)"
    "map_of PORT_COMMANDS 10 = Some ''XA,1$''"
    by (simp_all add: PORT_COMMANDS_def)
  have b: "1 \<le> n \<and> n \<le> 9 \<longrightarrow> map_of PORT_COMMANDS n = Some (''X'' @ str_int n @ '',1$'')"
    using PORT_COMMANDS_1_9 by blast
  have c: "\<exists>r w' evs. switch_kvm_port ser dev p (w, []) = (Inr r, (w', evs))
           \<and> map_of PORT_COMMANDS p = Some (command r)
           \<and> (\<forall>data. Write data \<in> set evs \<longrightarrow> data = command r)"
    if v: "1 \<le> p" "p \<le> 10"
  proof -
    from valid_has_command[OF v] obtain cmd where
      cmd: "map_of PORT_COMMANDS p = Some cmd" "encode_ascii cmd = Inr cmd" by blast
    obtain r0 w' evs where ws: "with_serial ser dev cmd (w, []) = (r0, (w', evs))"
      by (cases "with_serial ser dev cmd (w, [])") auto
    have wr: "\<forall>data. Write data \<in> set evs \<longrightarrow> data = cmd"
      using with_serial_Write[OF ws cmd(2)] by simp
    show ?thesis
    proof (cases r0)
      case (Inl e)
      then show ?thesis
        unfolding switch_valid_unfold[OF v cmd(1)] ws using cmd(1) wr
        by (auto simp: on_exception_def isinstance_Exception)
    next
      case (Inr resp)
      then show ?thesis
        unfolding switch_valid_unfold[OF v cmd(1)] ws using cmd(1) wr by auto
    qed
  qed
  from a b c dom_PORT_COMMANDS show ?thesis by blast
qed

theorem port_commands_bit_exact_witness:
  "(1 \<le> (7::int) \<and> (7::int) \<le> 9) \<and> map_of PORT_COMMANDS 7 = Some ''X7,1$''
   \<and> (1 \<le> (10::int) \<and> (10::int) \<le> 10)
   \<and> (\<exists>r w' evs. switch_kvm_port (stub None ''OK'' None) ''/dev/ttyUSB0'' 10 ((), []) = (Inr r, (w', evs))
        \<and> command r = ''XA,1$'' \<and> Write ''XA,1$'' \<in> set evs)"
  using port_commands_bit_exact [of 7 10 "stub None ''OK'' None" "''/dev/ttyUSB0''" "()"]
  by (simp add: str_int_def str_nat.simps stub_eval)

text \<open>
  C3 (amended). For a valid port with table entry \<open>cmd\<close>, which is not empty: when the serial
  transaction raises \<open>e\<close>, the result has \<open>success = False\<close>, an empty response and the
  command field \<open>cmd\<close>, and its error is chosen by the class of \<open>e\<close>. An instance of
  \<open>PermissionError\<close> gives the access-denied message with the device path; an instance
  of \<open>serial.SerialException\<close>, the serial library's class for errors of the transport
  (its timeout exception included), gives the serial-communication-failed message; an
  exception that is neither, such as a \<open>ValueError\<close> or a bare \<open>OSError\<close>, gives the
  unexpected-error message. In particular a \<open>PermissionError\<close> raised by opening the
  device gives the access-denied result after the single call that opened it.
\<close>

theorem switch_transport_failure:
  assumes "validate_port_number p" and "map_of PORT_COMMANDS p = Some cmd"
  shows "cmd \<noteq> '''' \<and>
     (with_serial ser dev cmd s = (Inl e, s') \<longrightarrow>
        (\<exists>msg. switch_kvm_port ser dev p s =
                 (Inr \<lparr>success = False, port = p, command = cmd, response = '''',
                       error = Some msg\<rparr>, s')
           \<and> (isinstance e PermissionError \<longrightarrow>
                 msg = ''Access denied to serial port '' @ dev @ '': '' @ exn_str e)
           \<and> (isinstance e SerialException \<longrightarrow>
                 msg = ''Serial communication failed: '' @ exn_str e)
           \<and> (\<not> isinstance e PermissionError \<and> \<not> isinstance e SerialException \<longrightarrow>
                 msg = ''Unexpected error: '' @ exn_str e)))
     \<and> (Serial ser dev SERIAL_CONFIG (fst s) = (Inl e, w') \<and> isinstance e PermissionError \<longrightarrow>
          switch_kvm_port ser dev p s =
            (Inr \<lparr>success = False, port = p, command = cmd, response = '''',
                  error = Some (''Access denied to serial port '' @ dev @ '': '' @ exn_str e)\<rparr>,
             (w', snd s @ [Open dev SERIAL_CONFIG])))"
proof -
  from valid_command_nonempty[OF assms(2)] have v: "1 \<le> p" "p \<le> 10" and ne: "cmd \<noteq> []"
    by simp_all
  note u = switch_valid_unfold[OF v assms(2)]
  have 1: "with_serial ser dev cmd s = (Inl e, s') \<longrightarrow>
        (\<exists>msg. switch_kvm_port ser dev p s =
                 (Inr \<lparr>success = False, port = p, command = cmd, response = '''',
                       error = Some msg\<rparr>, s')
           \<and> (isinstance e PermissionError \<longrightarrow>
                 msg = ''Access denied to serial port '' @ dev @ '': '' @ exn_str e)
           \<and> (isinstance e SerialException \<longrightarrow>
                 msg = ''Serial communication failed: '' @ exn_str e)
           \<and> (\<not> isinstance e PermissionError \<and> \<not> isinstance e SerialException \<longrightarrow>
                 msg = ''Unexpected error: '' @ exn_str e))"
    by (auto simp: u on_exception_def isinstance_Exception isinstance_PermissionError_iff
        isinstance_SerialException_iff)
  have 2: "Serial ser dev SERIAL_CONFIG (fst s) = (Inl e, w') \<and> isinstance e PermissionError \<longrightarrow>
          switch_kvm_port ser dev p s =
            (Inr \<lparr>success = False, port = p, command = cmd, response = '''',
                  error = Some (''Access denied to serial port '' @ dev @ '': '' @ exn_str e)\<rparr>,
             (w', snd s @ [Open dev SERIAL_CONFIG]))"
    by (auto simp: u with_serial_open_fails on_exception_def isinstance_Exception
        isinstance_PermissionError_iff isinstance_SerialException_iff)
  from ne 1 2 show ?thesis by blast
qed

theorem switch_transport_failure_witness:
  "validate_port_number 3 \<and> map_of PORT_COMMANDS 3 = Some ''X3,1$''
   \<and> isinstance (PyExn PermissionError ''[Errno 13] Permission denied'') PermissionError
   \<and> switch_kvm_port (stub (Some (PyExn PermissionError ''[Errno 13] Permission denied'')) ''OK'' None)
        ''/dev/ttyUSB0'' 3 ((), []) =
       (Inr \<lparr>success = False, port = 3, command = ''X3,1$'', response = '''',
             error = Some ''Access denied to serial port /dev/ttyUSB0: [Errno 13] Permission denied''\<rparr>,
        ((), [Open ''/dev/ttyUSB0'' SERIAL_CONFIG]))
   \<and> isinstance (PyExn SerialTimeoutException ''Write timeout'') SerialException
   \<and> switch_kvm_port (stub (Some (PyExn SerialTimeoutException ''Write timeout'')) ''OK'' None)
        ''/dev/ttyUSB0'' 3 ((), []) =
       (Inr \<lparr>success = False, port = 3, command = ''X3,1$'', response = '''',
             error = Some ''Serial communication failed: Write timeout''\<rparr>,
        ((), [Open ''/dev/ttyUSB0'' SERIAL_CONFIG]))
   \<and> \<not> isinstance (PyExn ValueError ''bad value'') PermissionError
   \<and> \<not> isinstance (PyExn ValueError ''bad value'') SerialException
   \<and> switch_kvm_port (stub (Some (PyExn ValueError ''bad value'')) ''OK'' None)
        ''/dev/ttyUSB0'' 3 ((), []) =
       (Inr \<lparr>success = False, port = 3, command = ''X3,1$'', response = '''',
             error = Some ''Unexpected error: bad value''\<rparr>,
        ((), [Open ''/dev/ttyUSB0'' SERIAL_CONFIG]))"
  using
    switch_transport_failure [of 3 "''X3,1$''"
      "stub (Some (PyExn PermissionError ''[Errno 13] Permission denied'')) ''OK'' None"
      "''/dev/ttyUSB0''" "((), [])" "PyExn PermissionError ''[Errno 13] Permission denied''"
      "((), [Open ''/dev/ttyUSB0'' SERIAL_CONFIG])" "()"]
    switch_transport_failure [of 3 "''X3,1$''"
      "stub (Some (PyExn SerialTimeoutException ''Write timeout'')) ''OK'' None"
      "''/dev/ttyUSB0''" "((), [])" "PyExn SerialTimeoutException ''Write timeout''"
      "((), [Open ''/dev/ttyUSB0'' SERIAL_CONFIG])" "()"]
    switch_transport_failure [of 3 "''X3,1$''"
      "stub (Some (PyExn ValueError ''bad value'')) ''OK'' None"
      "''/dev/ttyUSB0''" "((), [])" "PyExn ValueError ''bad value''"
      "((), [Open ''/dev/ttyUSB0'' SERIAL_CONFIG])" "()"]
  by (simp add: validate_port_number_def PORT_COMMANDS_def isinstance_def with_serial_def
      invoke_def stub_def outcome_def)

text \<open>
  The claim as stated maps every I/O error of the transport to the serial-communication
  failure. An I/O error that reaches the handlers as a plain \<open>OSError\<close>, here raised by
  opening the device, is not an instance of \<open>serial.SerialException\<close> and gets the
  unexpected-error message.
\<close>

theorem io_error_is_unexpected:
  "validate_port_number 3
   \<and> exn_class (PyExn OSError ''[Errno 5] Input/output error'') = OSError
   \<and> Serial (stub (Some (PyExn OSError ''[Errno 5] Input/output error'')) ''OK'' None)
         ''/dev/ttyUSB0'' SERIAL_CONFIG () =
       (Inl (PyExn OSError ''[Errno 5] Input/output error''), ())
   \<and> switch_kvm_port (stub (Some (PyExn OSError ''[Errno 5] Input/output error'')) ''OK'' None)
        ''/dev/ttyUSB0'' 3 ((), []) =
       (Inr \<lparr>success = False, port = 3, command = ''X3,1$'', response = '''',
             error = Some ''Unexpected error: [Errno 5] Input/output error''\<rparr>,
        ((), [Open ''/dev/ttyUSB0'' SERIAL_CONFIG]))
   \<and> ''Unexpected error: [Errno 5] Input/output error''
         \<noteq> ''Serial communication failed: [Errno 5] Input/output error''"
  by (simp add: stub_eval)



text \<open>
  C5 (amended). For a valid port with table entry \<open>cmd\<close>: when opening the device,
  clearing both buffers, writing, flushing, asking how many bytes wait and reading all
  succeed, the read returning the bytes \<open>bs\<close>, and closing the device then succeeds too,
  \<open>switch_kvm_port\<close> returns \<open>success = True\<close> without an error, and the response is
  \<open>bs\<close> decoded as ASCII with the other bytes dropped and the surrounding whitespace
  removed, whatever \<open>bs\<close> is: every character of it is ASCII, and it neither starts nor
  ends with whitespace. The bytes of \<open>"  OK\r\n"\<close> give \<open>OK\<close>.
\<close>

theorem switch_success_response:
  assumes "validate_port_number p" and "map_of PORT_COMMANDS p = Some cmd"
    and "Serial ser dev SERIAL_CONFIG w0 = (Inr u1, w1)"
    and "reset_input_buffer ser w1 = (Inr u2, w2)"
    and "reset_output_buffer ser w2 = (Inr u3, w3)"
    and "ser_write ser cmd w3 = (Inr k, w4)"
    and "flush ser w4 = (Inr u5, w5)"
    and "in_waiting ser (sleep ser 0.5 w5) = (Inr n, w6)"
    and "read ser (if n \<noteq> 0 then n else 1024) w6 = (Inr bs, w7)"
    and "close ser w7 = (Inr u8, w8)"
  shows "switch_kvm_port ser dev p (w0, []) =
           (Inr \<lparr>success = True, port = p, command = cmd,
                 response = strip (decode_ascii_ignore bs), error = None\<rparr>,
            (w8, [Open dev SERIAL_CONFIG, ResetInputBuffer, ResetOutputBuffer, Write cmd,
                  Flush, Sleep 0.5, InWaiting, Read (if n \<noteq> 0 then n else 1024), Close]))
         \<and> (\<forall>c\<in>set (strip (decode_ascii_ignore bs)). (of_char c :: nat) < 128)
         \<and> (strip (decode_ascii_ignore bs) \<noteq> '''' \<longrightarrow>
               \<not> isspace (hd (strip (decode_ascii_ignore bs)))
             \<and> \<not> isspace (last (strip (decode_ascii_ignore bs))))"
proof -
  from assms(1) have v: "1 \<le> p" "p \<le> 10" by (simp_all add: validate_port_number_def)
  have "switch_kvm_port ser dev p (w0, []) =
           (Inr \<lparr>success = True, port = p, command = cmd,
                 response = strip (decode_ascii_ignore bs), error = None\<rparr>,
            (w8, [Open dev SERIAL_CONFIG, ResetInputBuffer, ResetOutputBuffer, Write cmd,
                  Flush, Sleep 0.5, InWaiting, Read (if n \<noteq> 0 then n else 1024), Close]))"
    unfolding switch_upto_in_waiting[OF v assms(2-10)] by simp
  with strip_ascii[of bs] strip_ends[of "decode_ascii_ignore bs"] show ?thesis by blast
qed

theorem switch_success_response_witness:
  "validate_port_number 1 \<and> map_of PORT_COMMANDS 1 = Some ''X1,1$''
   \<and> read (stub None [CHR 0x20, CHR 0x20, CHR ''O'', CHR ''K'', CHR 0x0D, CHR 0x0A] None) 6 () =
        (Inr [CHR 0x20, CHR 0x20, CHR ''O'', CHR ''K'', CHR 0x0D, CHR 0x0A], ())
   \<and> switch_kvm_port (stub None [CHR 0x20, CHR 0x20, CHR ''O'', CHR ''K'', CHR 0x0D, CHR 0x0A] None)
        ''/dev/ttyUSB0'' 1 ((), []) =
       (Inr \<lparr>success = True, port = 1, command = ''X1,1$'', response = ''OK'', error = None\<rparr>,
        ((), [Open ''/dev/ttyUSB0'' SERIAL_CONFIG, ResetInputBuffer, ResetOutputBuffer,
              Write ''X1,1$'', Flush, Sleep 0.5, InWaiting, Read 6, Close]))
   \<and> \<not> isspace (hd ''OK'') \<and> \<not> isspace (last ''OK'')"
  using switch_success_response [of 1 "''X1,1$''"
      "stub None [CHR 0x20, CHR 0x20, CHR ''O'', CHR ''K'', CHR 0x0D, CHR 0x0A] None"
      "''/dev/ttyUSB0''" "()" "()" "()" "()" "()" "()" "()" 5 "()" "()" "()" 6 "()"
      "[CHR 0x20, CHR 0x20, CHR ''O'', CHR ''K'', CHR 0x0D, CHR 0x0A]" "()" "()" "()"]
  by (simp add: stub_ops strip_def decode_ascii_ignore_def isspace_def)

text \<open>
  The claim as stated asks only that the read succeeds. When the read succeeds and
  closing the device then raises, the exception leaves the \<open>with\<close> block and is caught:
  the result is a failure.
\<close>

theorem read_succeeds_close_raises:
  "validate_port_number 1
   \<and> read (stub None [CHR 0x20, CHR 0x20, CHR ''O'', CHR ''K'', CHR 0x0D, CHR 0x0A]
              (Some (PyExn OSError ''[Errno 5] Input/output error''))) 6 () =
        (Inr [CHR 0x20, CHR 0x20, CHR ''O'', CHR ''K'', CHR 0x0D, CHR 0x0A], ())
   \<and> switch_kvm_port (stub None [CHR 0x20, CHR 0x20, CHR ''O'', CHR ''K'', CHR 0x0D, CHR 0x0A]
                        (Some (PyExn OSError ''[Errno 5] Input/output error'')))
        ''/dev/ttyUSB0'' 1 ((), []) =
       (Inr \<lparr>success = False, port = 1, command = ''X1,1$'', response = '''',
             error = Some ''Unexpected error: [Errno 5] Input/output error''\<rparr>,
        ((), [Open ''/dev/ttyUSB0'' SERIAL_CONFIG, ResetInputBuffer, ResetOutputBuffer,
              Write ''X1,1$'', Flush, Sleep 0.5, InWaiting, Read 6, Close]))"
  by (simp add: stub_eval)

text \<open>
  C6. Whenever a transaction reaches the read step, that is, asks the device how many bytes
  wait, every earlier call succeeded, and the read step runs on the state of the device that
  a sleep of 500 ms leaves: the state after the flush, which follows the write of the command,
  advanced by \<open>sleep\<close> with the fixed argument of half a second. The port is closed on
  the state the read step leaves, and the result is the outcome of the read step and of the
  close. The calls recorded so far are, in order: open, clear input, clear output, write,
  flush, sleep, the query; when \<open>read\<close> is called, the whole record is these calls, the read
  and the close. So on every such path the sleep is executed, after the write and the flush
  and before the read, and no branch skips it; it waits for its full fixed length whatever
  the device does.
\<close>

theorem settle_delay_before_read:
  assumes "switch_kvm_port ser dev p (w, []) = (r, (w', evs))" and "InWaiting \<in> set evs"
  shows "\<exists>cmd k w1 w2 w3 w4 w5 rr s7 rc.
           map_of PORT_COMMANDS p = Some cmd
         \<and> Serial ser dev SERIAL_CONFIG w = (Inr (), w1)
         \<and> reset_input_buffer ser w1 = (Inr (), w2)
         \<and> reset_output_buffer ser w2 = (Inr (), w3)
         \<and> ser_write ser cmd w3 = (Inr k, w4)
         \<and> flush ser w4 = (Inr (), w5)
         \<and> read_response ser
              (sleep ser (500 / 1000) w5,
               [Open dev SERIAL_CONFIG, ResetInputBuffer, ResetOutputBuffer, Write cmd, Flush,
                Sleep (500 / 1000)]) = (rr, s7)
         \<and> invoke Close (close ser) s7 = (rc, (w', evs))
         \<and> r = (case rc of
                    Inl e \<Rightarrow> on_exception dev p cmd e
                  | Inr _ \<Rightarrow>
                      (case rr of
                         Inl e \<Rightarrow> on_exception dev p cmd e
                       | Inr bs \<Rightarrow> Inr \<lparr>success = True, port = p, command = cmd,
                                        response = strip (decode_ascii_ignore bs),
                                        error = None\<rparr>))
         \<and> take 7 evs = [Open dev SERIAL_CONFIG, ResetInputBuffer, ResetOutputBuffer, Write cmd,
                           Flush, Sleep (500 / 1000), InWaiting]
         \<and> (\<forall>n. Read n \<in> set evs \<longrightarrow>
                evs = [Open dev SERIAL_CONFIG, ResetInputBuffer, ResetOutputBuffer, Write cmd,
                       Flush, Sleep (500 / 1000), InWaiting, Read n, Close])"
proof (cases "validate_port_number p")
  case False
  with assms show ?thesis by (simp add: switch_kvm_port_def)
next
  case True
  then have v: "1 \<le> p" "p \<le> 10" by (simp_all add: validate_port_number_def)
  from valid_has_command[OF v] obtain cmd where
    c: "map_of PORT_COMMANDS p = Some cmd" "encode_ascii cmd = Inr cmd" by blast
  from switch_valid_events[OF v c(1) assms(1)] obtain r0 where
    ws: "with_serial ser dev cmd (w, []) = (r0, (w', evs))" by blast
  have r: "r = (case r0 of Inl e \<Rightarrow> on_exception dev p cmd e
                | Inr resp \<Rightarrow> Inr \<lparr>success = True, port = p, command = cmd,
                                        response = resp, error = None\<rparr>)"
    using assms(1) unfolding switch_valid_unfold[OF v c(1)] ws by (simp split: sum.splits)
  from assms(2) have iw: "InWaiting \<in> set (snd (w', evs))" by simp
  from with_serial_reaches_read[OF ws c(2) iw]
  obtain k w1 w2 w3 w4 w5 rr s7 rc where ch:
      "Serial ser dev SERIAL_CONFIG w = (Inr (), w1)"
      "reset_input_buffer ser w1 = (Inr (), w2)"
      "reset_output_buffer ser w2 = (Inr (), w3)"
      "ser_write ser cmd w3 = (Inr k, w4)"
      "flush ser w4 = (Inr (), w5)"
      "read_response ser
              (sleep ser 0.5 w5,
               [Open dev SERIAL_CONFIG, ResetInputBuffer, ResetOutputBuffer, Write cmd, Flush,
                Sleep 0.5]) = (rr, s7)"
      "invoke Close (close ser) s7 = (rc, (w', evs))"
      "r0 = (case rc of
                    Inl e \<Rightarrow> Inl e
                  | Inr _ \<Rightarrow> (case rr of Inl e \<Rightarrow> Inl e
                                       | Inr bs \<Rightarrow> Inr (strip (decode_ascii_ignore bs))))"
    by blast
  have r': "r = (case rc of
                    Inl e \<Rightarrow> on_exception dev p cmd e
                  | Inr _ \<Rightarrow>
                      (case rr of
                         Inl e \<Rightarrow> on_exception dev p cmd e
                       | Inr bs \<Rightarrow> Inr \<lparr>success = True, port = p, command = cmd,
                                        response = strip (decode_ascii_ignore bs),
                                        error = None\<rparr>))"
    unfolding r ch(8) by (simp split: sum.splits)
  have t7: "take 7 evs = [Open dev SERIAL_CONFIG, ResetInputBuffer, ResetOutputBuffer, Write cmd,
                           Flush, Sleep (500 / 1000), InWaiting]"
    using with_serial_InWaiting[OF ws c(2)] assms(2) by simp
  have rd: "\<forall>n. Read n \<in> set evs \<longrightarrow>
                evs = [Open dev SERIAL_CONFIG, ResetInputBuffer, ResetOutputBuffer, Write cmd,
                       Flush, Sleep (500 / 1000), InWaiting, Read n, Close]"
    using with_serial_Read[OF ws c(2)] by simp
  have half: "(500 / 1000 :: real) = 0.5" by simp
  from c(1) ch(1-7) r' t7 rd show ?thesis
    unfolding half by blast
qed

text \<open>
  On a device whose reply arrives only after half a second, the transaction started at time 0
  ends at time 1/2 with the reply read: before the sleep the device reports nothing waiting.
\<close>

theorem settle_delay_before_read_witness:
  "switch_kvm_port (clock_stub ''OK'') ''/dev/ttyUSB0'' 3 (0, []) =
     (Inr \<lparr>success = True, port = 3, command = ''X3,1$'', response = ''OK'', error = None\<rparr>,
      (1 / 2, [Open ''/dev/ttyUSB0'' SERIAL_CONFIG, ResetInputBuffer, ResetOutputBuffer,
            Write ''X3,1$'', Flush, Sleep (500 / 1000), InWaiting, Read 2, Close]))
   \<and> InWaiting \<in> set [Open ''/dev/ttyUSB0'' SERIAL_CONFIG, ResetInputBuffer, ResetOutputBuffer,
            Write ''X3,1$'', Flush, Sleep (500 / 1000), InWaiting, Read 2, Close]
   \<and> flush (clock_stub ''OK'') 0 = (Inr (), 0)
   \<and> sleep (clock_stub ''OK'') (500 / 1000) 0 = 1 / 2
   \<and> in_waiting (clock_stub ''OK'') 0 = (Inr 0, 0)
   \<and> read_response (clock_stub ''OK'')
         (sleep (clock_stub ''OK'') (500 / 1000) 0,
          [Open ''/dev/ttyUSB0'' SERIAL_CONFIG, ResetInputBuffer, ResetOutputBuffer,
           Write ''X3,1$'', Flush, Sleep (500 / 1000)]) =
       (Inr ''OK'',
        (1 / 2, [Open ''/dev/ttyUSB0'' SERIAL_CONFIG, ResetInputBuffer, ResetOutputBuffer,
           Write ''X3,1$'', Flush, Sleep (500 / 1000), InWaiting, Read 2]))"
proof -
  have run: "switch_kvm_port (clock_stub ''OK'') ''/dev/ttyUSB0'' 3 (0, []) =
     (Inr \<lparr>success = True, port = 3, command = ''X3,1$'', response = ''OK'', error = None\<rparr>,
      (1 / 2, [Open ''/dev/ttyUSB0'' SERIAL_CONFIG, ResetInputBuffer, ResetOutputBuffer,
            Write ''X3,1$'', Flush, Sleep (500 / 1000), InWaiting, Read 2, Close]))"
    by (simp add: switch_kvm_port_def validate_port_number_def PORT_COMMANDS_def with_serial_def
        exchange_def read_response_def io_defs clock_stub_def encode_ascii_def strip_def
        decode_ascii_ignore_def isspace_def)
  have mem: "InWaiting \<in> set [Open ''/dev/ttyUSB0'' SERIAL_CONFIG, ResetInputBuffer,
            ResetOutputBuffer, Write ''X3,1$'', Flush, Sleep (500 / 1000), InWaiting, Read 2, Close]"
    by simp
  from settle_delay_before_read[OF run mem]
  obtain cmd k w1 w2 w3 w4 w5 rr s7 rc where t:
    "map_of PORT_COMMANDS 3 = Some cmd"
    "Serial (clock_stub ''OK'') ''/dev/ttyUSB0'' SERIAL_CONFIG 0 = (Inr (), w1)"
    "reset_input_buffer (clock_stub ''OK'') w1 = (Inr (), w2)"
    "reset_output_buffer (clock_stub ''OK'') w2 = (Inr (), w3)"
    "ser_write (clock_stub ''OK'') cmd w3 = (Inr k, w4)"
    "flush (clock_stub ''OK'') w4 = (Inr (), w5)"
    "read_response (clock_stub ''OK'')
         (sleep (clock_stub ''OK'') (500 / 1000) w5,
          [Open ''/dev/ttyUSB0'' SERIAL_CONFIG, ResetInputBuffer, ResetOutputBuffer,
           Write cmd, Flush, Sleep (500 / 1000)]) = (rr, s7)"
    "invoke Close (close (clock_stub ''OK'')) s7 =
       (rc, (1 / 2, [Open ''/dev/ttyUSB0'' SERIAL_CONFIG, ResetInputBuffer, ResetOutputBuffer,
            Write ''X3,1$'', Flush, Sleep (500 / 1000), InWaiting, Read 2, Close]))"
    by blast
  from t(1) have cmd: "cmd = ''X3,1$''" by (simp add: PORT_COMMANDS_def)
  from t(2-6) have w5: "w5 = 0" by (simp add: clock_stub_def)
  have rr: "read_response (clock_stub ''OK'')
         (sleep (clock_stub ''OK'') (500 / 1000) 0,
          [Open ''/dev/ttyUSB0'' SERIAL_CONFIG, ResetInputBuffer, ResetOutputBuffer,
           Write ''X3,1$'', Flush, Sleep (500 / 1000)]) =
       (Inr ''OK'',
        (1 / 2, [Open ''/dev/ttyUSB0'' SERIAL_CONFIG, ResetInputBuffer, ResetOutputBuffer,
           Write ''X3,1$'', Flush, Sleep (500 / 1000), InWaiting, Read 2]))"
    using t(7) unfolding cmd w5
    by (auto simp: read_response_def io_defs clock_stub_def)
  have ops: "flush (clock_stub ''OK'') 0 = (Inr (), 0)"
    "sleep (clock_stub ''OK'') (500 / 1000) 0 = 1 / 2"
    "in_waiting (clock_stub ''OK'') 0 = (Inr 0, 0)"
    by (simp_all add: clock_stub_def)
  from run mem ops rr show ?thesis by (intro conjI)
qed

text \<open>
  C7 (amended). When the transaction gets as far as asking the device how many bytes wait and
  the device answers \<open>n\<close>, the read that follows asks for exactly \<open>n\<close> bytes when \<open>n\<close>
  is not zero, without any cap, and for 1024 bytes when \<open>n\<close> is zero; the device it reads
  from was opened with the configured read timeout of one second.
\<close>

theorem read_request_size:
  assumes "validate_port_number p" and "map_of PORT_COMMANDS p = Some cmd"
    and "Serial ser dev SERIAL_CONFIG w0 = (Inr u1, w1)"
    and "reset_input_buffer ser w1 = (Inr u2, w2)"
    and "reset_output_buffer ser w2 = (Inr u3, w3)"
    and "ser_write ser cmd w3 = (Inr k, w4)"
    and "flush ser w4 = (Inr u5, w5)"
    and "in_waiting ser (sleep ser 0.5 w5) = (Inr n, w6)"
  shows "snd (snd (switch_kvm_port ser dev p (w0, []))) =
           [Open dev SERIAL_CONFIG, ResetInputBuffer, ResetOutputBuffer, Write cmd,
            Flush, Sleep 0.5, InWaiting, Read (if n = 0 then 1024 else n), Close]
         \<and> timeout SERIAL_CONFIG = 1"
proof -
  from assms(1) have v: "1 \<le> p" "p \<le> 10" by (simp_all add: validate_port_number_def)
  obtain rr w7 where r: "read ser (if n \<noteq> 0 then n else 1024) w6 = (rr, w7)"
    by (cases "read ser (if n \<noteq> 0 then n else 1024) w6")
  obtain rc w8 where c: "close ser w7 = (rc, w8)" by (cases "close ser w7")
  show ?thesis
    unfolding switch_upto_in_waiting[OF v assms(2-8) r c]
    by (simp add: SERIAL_CONFIG_def)
qed

theorem read_request_size_witness:
  "validate_port_number 1 \<and> map_of PORT_COMMANDS 1 = Some ''X1,1$''
   \<and> in_waiting (stub None '''' None) () = (Inr 0, ())
   \<and> snd (snd (switch_kvm_port (stub None '''' None) ''/dev/ttyUSB0'' 1 ((), []))) =
           [Open ''/dev/ttyUSB0'' SERIAL_CONFIG, ResetInputBuffer, ResetOutputBuffer,
            Write ''X1,1$'', Flush, Sleep 0.5, InWaiting, Read 1024, Close]
   \<and> in_waiting (stub None ''OK'' None) () = (Inr 2, ())
   \<and> snd (snd (switch_kvm_port (stub None ''OK'' None) ''/dev/ttyUSB0'' 1 ((), []))) =
           [Open ''/dev/ttyUSB0'' SERIAL_CONFIG, ResetInputBuffer, ResetOutputBuffer,
            Write ''X1,1$'', Flush, Sleep 0.5, InWaiting, Read 2, Close]"
  using
    read_request_size [of 1 "''X1,1$''" "stub None '''' None" "''/dev/ttyUSB0''"
      "()" "()" "()" "()" "()" "()" "()" 5 "()" "()" "()" 0 "()"]
    read_request_size [of 1 "''X1,1$''" "stub None ''OK'' None" "''/dev/ttyUSB0''"
      "()" "()" "()" "()" "()" "()" "()" 5 "()" "()" "()" 2 "()"]
  by (simp add: stub_ops)

text \<open>
  The claim as stated bounds every read by 1024 bytes. A device that reports 1025 bytes
  waiting is asked for 1025.
\<close>

theorem read_exceeds_cap:
  "in_waiting (stub None (replicate 1025 (CHR ''A'')) None) () = (Inr 1025, ())
   \<and> snd (snd (switch_kvm_port (stub None (replicate 1025 (CHR ''A'')) None) ''/dev/ttyUSB0'' 1 ((), []))) =
           [Open ''/dev/ttyUSB0'' SERIAL_CONFIG, ResetInputBuffer, ResetOutputBuffer,
            Write ''X1,1$'', Flush, Sleep 0.5, InWaiting, Read 1025, Close]
   \<and> \<not> (1025::nat) \<le> 1024"
proof -
  have v: "(1::int) \<le> 1" "(1::int) \<le> 10" by simp_all
  have c: "map_of PORT_COMMANDS 1 = Some ''X1,1$''" by (simp add: PORT_COMMANDS_def)
  have "snd (snd (switch_kvm_port (stub None (replicate 1025 (CHR ''A'')) None) ''/dev/ttyUSB0'' 1 ((), []))) =
           [Open ''/dev/ttyUSB0'' SERIAL_CONFIG, ResetInputBuffer, ResetOutputBuffer,
            Write ''X1,1$'', Flush, Sleep 0.5, InWaiting, Read 1025, Close]"
    by (subst switch_upto_in_waiting[OF v c, where n = 1025 and ?w8.0 = "()" and rc = "Inr ()"
          and rr = "Inr (replicate 1025 (CHR ''A''))"])
       (simp_all add: stub_def outcome_def)
  then show ?thesis by (simp add: stub_def)
qed

section \<open>Discovery and friendly names\<close>

text \<open>
  C9. \<open>get_serial_ports\<close> returns a list in every case. When the enumeration of the
  operating system's ports raises, the list is empty. Every entry of a returned list
  comes from an enumerated port, with that port's device and description, and the
  description in lower case contains one of the words usb, serial, ch340, ftdi, cp210.
  The returned list is sorted in ascending order of the device names.
\<close>

theorem get_serial_ports_safe:
  "get_serial_ports (Inl e) = []
   \<and> (\<forall>x\<in>set (get_serial_ports (Inr ports)).
         (\<exists>q\<in>set ports. device x = lp_device q \<and> description x = lp_description q)
       \<and> (\<exists>kw\<in>set filter_keywords. \<exists>pre suf. lower (description x) = pre @ kw @ suf))
   \<and> sorted (map device (get_serial_ports c))"
proof -
  have 1: "get_serial_ports (Inl e) = []" by (simp add: get_serial_ports_def)
  have 2: "(\<exists>q\<in>set ports. device x = lp_device q \<and> description x = lp_description q)
       \<and> (\<exists>kw\<in>set filter_keywords. \<exists>pre suf. lower (description x) = pre @ kw @ suf)"
    if "x \<in> set (get_serial_ports (Inr ports))" for x
  proof -
    from that obtain q where q: "q \<in> set ports" "matches_keyword q" "x = to_info q"
      by (auto simp: get_serial_ports_def)
    from matches_keyword_nonempty[OF q(2)] q(3)
    have d: "device x = lp_device q" "description x = lp_description q"
      by (simp_all add: to_info_def)
    with q(1) q(2) show ?thesis by (auto simp: matches_keyword_iff)
  qed
  have 3: "sorted (map device (get_serial_ports c))"
    by (cases c) (simp_all add: get_serial_ports_def)
  from 1 2 3 show ?thesis by blast
qed

theorem get_serial_ports_safe_witness:
  "get_serial_ports (Inl (PyExn OSError ''enumeration failed'')) = []
   \<and> get_serial_ports (Inr example_ports) =
     [\<lparr>device = ''/dev/ttyUSB0'', description = ''USB-Serial Controller''\<rparr>,
      \<lparr>device = ''/dev/ttyUSB1'', description = ''FTDI Adapter''\<rparr>]
   \<and> \<lparr>device = ''/dev/ttyUSB1'', description = ''FTDI Adapter''\<rparr>
         \<in> set (get_serial_ports (Inr example_ports))
   \<and> (\<exists>q\<in>set example_ports. lp_device q = ''/dev/ttyUSB1'' \<and> lp_description q = ''FTDI Adapter'')
   \<and> (\<exists>kw\<in>set filter_keywords. \<exists>pre suf. lower ''FTDI Adapter'' = pre @ kw @ suf)
   \<and> sorted [''/dev/ttyUSB0'', ''/dev/ttyUSB1'']"
proof -
  note t = get_serial_ports_safe [of "PyExn OSError ''enumeration failed''" example_ports
      "Inr example_ports"]
  let ?x = "\<lparr>device = ''/dev/ttyUSB1'', description = ''FTDI Adapter''\<rparr>"
  have m: "?x \<in> set (get_serial_ports (Inr example_ports))"
    by (simp add: example_ports_result)
  with t have
    "(\<exists>q\<in>set example_ports. device ?x = lp_device q \<and> description ?x = lp_description q)
       \<and> (\<exists>kw\<in>set filter_keywords. \<exists>pre suf. lower (description ?x) = pre @ kw @ suf)"
    by blast
  then have
    "(\<exists>q\<in>set example_ports. lp_device q = ''/dev/ttyUSB1'' \<and> lp_description q = ''FTDI Adapter'')
       \<and> (\<exists>kw\<in>set filter_keywords. \<exists>pre suf. lower ''FTDI Adapter'' = pre @ kw @ suf)"
    by (simp add: eq_commute)
  with t m show ?thesis by (simp add: example_ports_result)
qed

text \<open>
  C10. The keys of the mapping that \<open>get_port_names_from_env\<close> returns are exactly the ports
  1..10. For each of them the value is the environment variable \<open>KVM_PORT_p_NAME\<close> when
  it is set and not empty, and \<open>Server p\<close> otherwise. No value is empty.
\<close>

theorem get_port_names_from_env_total:
  "dom (get_port_names_from_env getenv) = {1..10}
   \<and> (\<forall>p\<in>{1..10}. get_port_names_from_env getenv p =
         Some (case getenv (''KVM_PORT_'' @ str_int p @ ''_NAME'') of
                 None \<Rightarrow> ''Server '' @ str_int p
               | Some v \<Rightarrow> if v \<noteq> '''' then v else ''Server '' @ str_int p))
   \<and> (\<forall>v\<in>ran (get_port_names_from_env getenv). v \<noteq> '''')"
proof -
  have 1: "dom (get_port_names_from_env getenv) = {1..10}"
    by (auto simp: dom_def get_port_names_apply)
  have 2: "\<forall>p\<in>{1..10}. get_port_names_from_env getenv p =
         Some (case getenv (''KVM_PORT_'' @ str_int p @ ''_NAME'') of
                 None \<Rightarrow> ''Server '' @ str_int p
               | Some v \<Rightarrow> if v \<noteq> '''' then v else ''Server '' @ str_int p)"
    by (simp add: get_port_names_apply port_name_def)
  have 3: "\<forall>v\<in>ran (get_port_names_from_env getenv). v \<noteq> ''''"
    using port_name_nonempty
    by (auto simp: ran_def get_port_names_apply split: if_splits)
  from 1 2 3 show ?thesis by blast
qed

theorem get_port_names_from_env_total_witness:
  "(2::int) \<in> {1..10} \<and> get_port_names_from_env example_env 2 = Some ''Build box''
   \<and> (3::int) \<in> {1..10} \<and> get_port_names_from_env example_env 3 = Some ''Server 3''
   \<and> (10::int) \<in> {1..10} \<and> get_port_names_from_env example_env 10 = Some ''Server 10''
   \<and> ''Build box'' \<in> ran (get_port_names_from_env example_env) \<and> ''Build box'' \<noteq> ''''"
proof -
  note t = get_port_names_from_env_total [of example_env]
  from t have a: "get_port_names_from_env example_env p =
         Some (case example_env (''KVM_PORT_'' @ str_int p @ ''_NAME'') of
                 None \<Rightarrow> ''Server '' @ str_int p
               | Some v \<Rightarrow> if v \<noteq> '''' then v else ''Server '' @ str_int p)"
    if "p \<in> {1..10}" for p
    using that by blast
  have 2: "get_port_names_from_env example_env 2 = Some ''Build box''"
    using a[of 2] by (simp add: example_env_def str_int_def str_nat.simps)
  have 3: "get_port_names_from_env example_env 3 = Some ''Server 3''"
    using a[of 3] by (simp add: example_env_def str_int_def str_nat.simps)
  have 10: "get_port_names_from_env example_env 10 = Some ''Server 10''"
    using a[of 10] by (simp add: example_env_def str_int_def str_nat.simps)
  from 2 have r: "''Build box'' \<in> ran (get_port_names_from_env example_env)"
    by (rule ranI)
  with t have "''Build box'' \<noteq> ''''" by blast
  with 2 3 10 r show ?thesis by simp
qed

end
